theory Spec2Isabelle
  imports Complex_Main "HOL-Library.Word"
begin

section \<open>Data model of src/textcompose/index.tsx\<close>

text \<open>
  JavaScript strings are sequences of UTF-16 code units. Numbers are IEEE doubles in the
  source; weights and audio-clock times are modelled as reals (every comparison of the
  source is kept as written, additions are exact), \<open>Date.now()\<close> and \<open>setTimeout\<close> delays
  as integers of milliseconds.
\<close>

type_synonym jsstring = "16 word list"

definition utf16 :: "string \<Rightarrow> jsstring" where
  "utf16 cs = map of_char cs"

text \<open>\<open>String.prototype.trim\<close>: strips WhiteSpace and LineTerminator code units at both ends.\<close>

definition isWhiteSpace :: "16 word \<Rightarrow> bool" where
  "isWhiteSpace c \<longleftrightarrow>
     c \<in> {0x9, 0xA, 0xB, 0xC, 0xD, 0x20, 0xA0, 0x1680, 0x2028, 0x2029, 0x202F, 0x205F,
          0x3000, 0xFEFF}
     \<or> (0x2000 \<le> c \<and> c \<le> 0x200A)"

definition trim :: "jsstring \<Rightarrow> jsstring" where
  "trim s = rev (dropWhile isWhiteSpace (rev (dropWhile isWhiteSpace s)))"

text \<open>\<open>e.message || fallback\<close>: an undefined or empty message is falsy.\<close>

definition orElse :: "jsstring option \<Rightarrow> jsstring \<Rightarrow> jsstring" where
  "orElse m d = (case m of None \<Rightarrow> d | Some x \<Rightarrow> if x = [] then d else x)"

record Track =
  trackId :: jsstring
  name :: jsstring
  color :: jsstring
  "text" :: jsstring
  weight :: real

datatype PlaybackState = stopped | playing | loading | paused

record WeightedPrompt =
  prompt_text :: jsstring
  prompt_weight :: real

record LiveMusicGenerationConfig =
  temperature :: "real option"
  topK :: "real option"
  guidance :: "real option"
  density :: "real option"
  brightness :: "real option"
  bpm :: "real option"
  seed :: "real option"
  scale :: "jsstring option"
  muteBass :: "bool option"
  muteDrums :: "bool option"
  onlyBassAndDrums :: "bool option"

record SettingsController =
  config :: LiveMusicGenerationConfig
  showAdvanced :: bool
  autoDensity :: bool
  lastDefinedDensity :: "real option"
  autoBrightness :: bool
  lastDefinedBrightness :: "real option"

text \<open>Calls made on the remote \<open>LiveMusicSession\<close>, in the order they are issued.\<close>

datatype SessionCall =
    SetWeightedPrompts "WeightedPrompt list"
  | SetMusicGenerationConfig LiveMusicGenerationConfig
  | Play
  | Pause
  | Stop
  | ResetContext

text \<open>Calls on the gain parameter of a gain node (identified by a number).\<close>

datatype GainCall =
    HoldValueAt nat real
  | SetValueAt nat real real
  | LinearRampTo nat real real

datatype AudioContextState = suspended | running | closed

text \<open>The two \<open>setTimeout\<close> callbacks of \<open>PromptDj\<close> (lines 1211 and 1424).\<close>

datatype TimerAction = LookaheadDeadline | ResumeAfterReset

record ScheduledBuffer =
  node :: nat
  startTime :: real
  duration :: real

text \<open>How an awaited call on the session settles.\<close>

datatype Settled = Resolved | Rejected "jsstring option"

text \<open>
  How \<open>ai.live.music.connect\<close> settles: with a session (and whether the server's
  \<open>setupComplete\<close> message was handled before the caller resumes), or with an error.
\<close>

datatype ConnectOutcome = Connected bool | ConnectFailed

text \<open>
  An inbound server message. The bytes of an audio chunk matter to the scheduler only through
  what \<open>decodeAudioData\<close> makes of them: a buffer of some duration, or a failure.
\<close>

record ServerMessage =
  setupComplete :: bool
  filteredPrompt :: "(jsstring \<times> jsstring) option"
  audioChunks :: "real option list option"

text \<open>
  The \<open>PromptDj\<close> component: its fields, the private \<open>lastCall\<close> of its two throttled
  methods, the part of the platform it reads (\<open>audioContext.state\<close>), and a log of every
  effect it has on its collaborators. The JavaScript \<open>Map\<close> of tracks keeps insertion order
  and is an association list here.
\<close>

record PromptDj =
  tracks :: "(jsstring \<times> Track) list"
  session :: bool
  audioState :: AudioContextState
  outputNode :: nat
  nodesCreated :: nat
  nextStartTime :: real
  playbackState :: PlaybackState
  filteredTrackTexts :: "jsstring set"
  connectionError :: bool
  settingsController :: SettingsController
  promptsLastCall :: int
  settingsLastCall :: int
  outbound :: "SessionCall list"
  toasts :: "jsstring list"
  gainCalls :: "GainCall list"
  resumeCalls :: nat
  started :: "ScheduledBuffer list"
  timers :: "(int \<times> TimerAction) list"
  underruns :: nat
  unhandledRejections :: "jsstring option list"

section \<open>Operations\<close>

definition bufferTime :: real where
  "bufferTime = 2"

definition defaultConfig :: LiveMusicGenerationConfig where
  "defaultConfig = \<lparr>temperature = Some 1.1, topK = Some 40, guidance = Some 4.0,
     density = None, brightness = None, bpm = None, seed = None, scale = None,
     muteBass = None, muteDrums = None, onlyBassAndDrums = None\<rparr>"

text \<open>\<open>this.session?.m()\<close>: the call is made only when a session exists.\<close>

definition sessionCall :: "SessionCall \<Rightarrow> PromptDj \<Rightarrow> PromptDj" where
  "sessionCall c s = (if session s then s\<lparr>outbound := outbound s @ [c]\<rparr> else s)"

definition toastShow :: "jsstring \<Rightarrow> PromptDj \<Rightarrow> PromptDj" where
  "toastShow m s = s\<lparr>toasts := toasts s @ [m]\<rparr>"

text \<open>
  \<open>throttle\<close> (lines 39-49): the wrapped function runs only when at least \<open>delay\<close>
  milliseconds have passed since the last call that ran; any other call is dropped. The
  closure's \<open>lastCall\<close> is read and written through \<open>getLast\<close> and \<open>setLast\<close>.
\<close>

definition throttle ::
  "(PromptDj \<Rightarrow> int) \<Rightarrow> (int \<Rightarrow> PromptDj \<Rightarrow> PromptDj) \<Rightarrow> (PromptDj \<Rightarrow> PromptDj) \<Rightarrow> int \<Rightarrow>
   int \<Rightarrow> PromptDj \<Rightarrow> PromptDj" where
  "throttle getLast setLast func delay now s =
     (let timeSinceLastCall = now - getLast s
      in if timeSinceLastCall \<ge> delay then setLast now (func s) else s)"

definition pauseAudio :: "real \<Rightarrow> PromptDj \<Rightarrow> PromptDj" where
  "pauseAudio currentTime s =
     (let s1 = (sessionCall Pause s)\<lparr>playbackState := paused\<rparr>;
          s2 = (if audioState s1 = running
                then s1\<lparr>gainCalls := gainCalls s1 @
                       [HoldValueAt (outputNode s1) currentTime,
                        LinearRampTo (outputNode s1) 0 (currentTime + 0.1)]\<rparr>
                else s1)
      in s2\<lparr>nextStartTime := 0, outputNode := nodesCreated s2,
            nodesCreated := Suc (nodesCreated s2)\<rparr>)"

definition loadAudio :: "real \<Rightarrow> PromptDj \<Rightarrow> PromptDj" where
  "loadAudio currentTime s =
     (let s1 = (if audioState s = suspended then s\<lparr>resumeCalls := Suc (resumeCalls s)\<rparr> else s);
          s2 = (sessionCall Play s1)\<lparr>playbackState := loading\<rparr>
      in s2\<lparr>gainCalls := gainCalls s2 @
               [SetValueAt (outputNode s2) 0 currentTime,
                LinearRampTo (outputNode s2) 1 (currentTime + 0.2)]\<rparr>)"

definition stopAudio :: "real \<Rightarrow> PromptDj \<Rightarrow> PromptDj" where
  "stopAudio currentTime s =
     (let s1 = (sessionCall Stop s)\<lparr>playbackState := stopped\<rparr>;
          s2 = (if audioState s1 = running
                then s1\<lparr>gainCalls := gainCalls s1 @
                       [HoldValueAt (outputNode s1) currentTime,
                        LinearRampTo (outputNode s1) 0 (currentTime + 0.1)]\<rparr>
                else s1)
      in s2\<lparr>nextStartTime := 0\<rparr>)"

text \<open>The list built at lines 1242-1248 from the tracks and the filtered texts.\<close>

definition promptsToSend :: "PromptDj \<Rightarrow> WeightedPrompt list" where
  "promptsToSend s =
     map (\<lambda>track. \<lparr>prompt_text = name track @ utf16 '': '' @ text track,
                   prompt_weight = weight track\<rparr>)
       (filter (\<lambda>track. text track \<notin> filteredTrackTexts s \<and> weight track > 0
                        \<and> trim (text track) \<noteq> [])
          (map snd (tracks s)))"

text \<open>
  The function wrapped by \<open>setSessionWeightedPrompts\<close> (lines 1241-1258), up to its
  \<open>await\<close>: the list is built and the send is issued when the function is called.
\<close>

definition sendWeightedPrompts :: "PromptDj \<Rightarrow> PromptDj" where
  "sendWeightedPrompts s =
     (if session s
      then s\<lparr>outbound := outbound s @ [SetWeightedPrompts (promptsToSend s)]\<rparr>
      else s)"

definition setSessionWeightedPrompts :: "int \<Rightarrow> PromptDj \<Rightarrow> PromptDj" where
  "setSessionWeightedPrompts now =
     throttle promptsLastCall (\<lambda>t s. s\<lparr>promptsLastCall := t\<rparr>) sendWeightedPrompts 200 now"

text \<open>The function wrapped by \<open>updateSettings\<close> (lines 1406-1410), up to its \<open>await\<close>.\<close>

definition sendGenerationConfig :: "LiveMusicGenerationConfig \<Rightarrow> PromptDj \<Rightarrow> PromptDj" where
  "sendGenerationConfig detail s =
     (if session s
      then s\<lparr>outbound := outbound s @ [SetMusicGenerationConfig detail]\<rparr>
      else s)"

definition updateSettings :: "int \<Rightarrow> LiveMusicGenerationConfig \<Rightarrow> PromptDj \<Rightarrow> PromptDj" where
  "updateSettings now detail =
     throttle settingsLastCall (\<lambda>t s. s\<lparr>settingsLastCall := t\<rparr>)
       (sendGenerationConfig detail) 200 now"

text \<open>
  What runs when the promise of a call on the session settles, at audio time
  \<open>currentTime\<close>. Only the prompt send has a handler: its rejection is caught at lines
  1254-1257, which show the error and pause. The configuration send is awaited outside any
  \<open>try\<close>, and the promises of play, pause, stop and reset-context are dropped, so their
  rejections reach no code of the component.
\<close>

definition onSettled :: "SessionCall \<Rightarrow> Settled \<Rightarrow> real \<Rightarrow> PromptDj \<Rightarrow> PromptDj" where
  "onSettled c settled currentTime s =
     (case settled of
        Resolved \<Rightarrow> s
      | Rejected m \<Rightarrow>
          (case c of
             SetWeightedPrompts ps \<Rightarrow>
               pauseAudio currentTime (toastShow (orElse m (utf16 ''Error setting prompts'')) s)
           | _ \<Rightarrow> s\<lparr>unhandledRejections := unhandledRejections s @ [m]\<rparr>))"

text \<open>
  \<open>SettingsController.dispatchSettingsChange\<close> (lines 859-881) computes the configuration
  that the \<open>settings-changed\<close> event carries; \<open>resetToDefaults\<close> (lines 763-771) restores
  the defaults and dispatches, which calls \<open>updateSettings\<close> synchronously.
\<close>

definition configToSend :: "SettingsController \<Rightarrow> LiveMusicGenerationConfig" where
  "configToSend c =
     (config c)\<lparr>
        density := (if autoDensity c then None
                    else Some (case lastDefinedDensity c of None \<Rightarrow> 0.5 | Some d \<Rightarrow> d)),
        brightness := (if autoBrightness c then None
                       else Some (case lastDefinedBrightness c of None \<Rightarrow> 0.5 | Some b \<Rightarrow> b)),
        temperature := (case temperature (config c) of
                          None \<Rightarrow> temperature defaultConfig | Some t \<Rightarrow> Some t),
        topK := (case topK (config c) of None \<Rightarrow> topK defaultConfig | Some k \<Rightarrow> Some k),
        guidance := (case guidance (config c) of
                       None \<Rightarrow> guidance defaultConfig | Some g \<Rightarrow> Some g)\<rparr>"

definition defaultSettings :: SettingsController where
  "defaultSettings = \<lparr>config = defaultConfig, showAdvanced = False, autoDensity = True,
     lastDefinedDensity = None, autoBrightness = True, lastDefinedBrightness = None\<rparr>"

definition resetToDefaults :: "int \<Rightarrow> PromptDj \<Rightarrow> PromptDj" where
  "resetToDefaults now s =
     updateSettings now (configToSend defaultSettings)
       (s\<lparr>settingsController := defaultSettings\<rparr>)"

subsection \<open>The session's callbacks (lines 1189-1239)\<close>

definition connectToSession :: "ConnectOutcome \<Rightarrow> PromptDj \<Rightarrow> PromptDj" where
  "connectToSession outcome s =
     (case outcome of
        Connected setup \<Rightarrow>
          s\<lparr>session := True, connectionError := (if setup then False else connectionError s)\<rparr>
      | ConnectFailed \<Rightarrow>
          (toastShow
             (utf16 ''Failed to initialize music session. Check API Key and connection.'') s)
             \<lparr>connectionError := True\<rparr>)"

text \<open>
  Lines 1206-1219: what the audio-chunk handler does once \<open>decodeAudioData\<close> has returned a
  buffer of duration \<open>d\<close>. \<open>now\<close> is the wall clock at which a timeout is armed,
  \<open>currentTime\<close> the reading of the audio clock in this task.
\<close>

definition scheduleBuffer :: "int \<Rightarrow> real \<Rightarrow> real \<Rightarrow> PromptDj \<Rightarrow> PromptDj" where
  "scheduleBuffer now currentTime d s =
     (let s1 = (if nextStartTime s = 0
                then s\<lparr>nextStartTime := currentTime + bufferTime,
                       timers := timers s @ [(now + \<lfloor>bufferTime * 1000\<rfloor>, LookaheadDeadline)]\<rparr>
                else s);
          s2 = (if nextStartTime s1 < currentTime
                then s1\<lparr>underruns := Suc (underruns s1), playbackState := loading,
                        nextStartTime := currentTime + bufferTime / 2\<rparr>
                else s1);
          s3 = s2\<lparr>started := started s2 @
                  [\<lparr>node = outputNode s2, startTime = nextStartTime s2, duration = d\<rparr>]\<rparr>
      in s3\<lparr>nextStartTime := nextStartTime s3 + d\<rparr>)"

text \<open>
  Lines 1196-1201 of \<open>onmessage\<close>: the setup-complete flag and the filtered-prompt notice.
\<close>

definition handleNotices :: "ServerMessage \<Rightarrow> PromptDj \<Rightarrow> PromptDj" where
  "handleNotices e s =
     (let s1 = (if setupComplete e then s\<lparr>connectionError := False\<rparr> else s)
      in case filteredPrompt e of
           None \<Rightarrow> s1
         | Some (t, filteredReason) \<Rightarrow>
             toastShow filteredReason
               (s1\<lparr>filteredTrackTexts := insert t (filteredTrackTexts s1)\<rparr>))"

text \<open>
  \<open>onmessage\<close> (lines 1194-1221), with the decode finishing before any other event. A
  message whose chunk list is empty, or whose first chunk does not decode, makes the handler's
  promise reject; nothing is scheduled and the playback state is untouched.
\<close>

definition onmessage :: "int \<Rightarrow> real \<Rightarrow> ServerMessage \<Rightarrow> PromptDj \<Rightarrow> PromptDj" where
  "onmessage now currentTime e s =
     (let s2 = handleNotices e s
      in case audioChunks e of
           None \<Rightarrow> s2
         | Some chunks \<Rightarrow>
             if playbackState s2 = paused \<or> playbackState s2 = stopped then s2
             else (case chunks of
                     [] \<Rightarrow> s2\<lparr>unhandledRejections := unhandledRejections s2 @ [None]\<rparr>
                   | None # _ \<Rightarrow> s2\<lparr>unhandledRejections := unhandledRejections s2 @ [None]\<rparr>
                   | Some d # _ \<Rightarrow> scheduleBuffer now currentTime d s2))"

definition onerror :: "real \<Rightarrow> PromptDj \<Rightarrow> PromptDj" where
  "onerror currentTime s =
     toastShow (utf16 ''Connection error, please restart audio.'')
       (stopAudio currentTime (s\<lparr>connectionError := True\<rparr>))"

definition onclose :: "real \<Rightarrow> PromptDj \<Rightarrow> PromptDj" where
  "onclose currentTime s =
     toastShow (utf16 ''Connection closed, please restart audio.'')
       (stopAudio currentTime (s\<lparr>connectionError := True\<rparr>))"

subsection \<open>Timers\<close>

definition runTimer :: "TimerAction \<Rightarrow> real \<Rightarrow> PromptDj \<Rightarrow> PromptDj" where
  "runTimer a currentTime s =
     (case a of
        LookaheadDeadline \<Rightarrow>
          (if playbackState s = loading then s\<lparr>playbackState := playing\<rparr> else s)
      | ResumeAfterReset \<Rightarrow> loadAudio currentTime s)"

text \<open>
  The runtime fires the \<open>k\<close>-th pending timeout, which it does only once the timeout is due.
  The source never calls \<open>clearTimeout\<close>: only firing removes a timeout.
\<close>

definition fireTimer :: "int \<Rightarrow> real \<Rightarrow> nat \<Rightarrow> PromptDj \<Rightarrow> PromptDj" where
  "fireTimer now currentTime k s =
     (if k < length (timers s) \<and> fst (timers s ! k) \<le> now
      then runTimer (snd (timers s ! k)) currentTime
             (s\<lparr>timers := take k (timers s) @ drop (Suc k) (timers s)\<rparr>)
      else s)"

subsection \<open>Track edits (lines 1264-1283, 1389-1404)\<close>

fun mapSet :: "jsstring \<Rightarrow> Track \<Rightarrow> (jsstring \<times> Track) list \<Rightarrow> (jsstring \<times> Track) list" where
  "mapSet k v [] = [(k, v)]"
| "mapSet k v ((k', v') # m) = (if k = k' then (k, v) # m else (k', v') # mapSet k v m)"

definition mapDelete :: "jsstring \<Rightarrow> (jsstring \<times> Track) list \<Rightarrow> (jsstring \<times> Track) list" where
  "mapDelete k m = filter (\<lambda>(k', v). k' \<noteq> k) m"

definition handleTrackChanged :: "int \<Rightarrow> Track \<Rightarrow> PromptDj \<Rightarrow> PromptDj" where
  "handleTrackChanged now changedTrack s =
     (case map_of (tracks s) (trackId changedTrack) of
        None \<Rightarrow> s
      | Some track \<Rightarrow>
          (let oldText = text track;
               track' = track\<lparr>name := name changedTrack, text := text changedTrack,
                               weight := weight changedTrack\<rparr>;
               s1 = (if oldText \<in> filteredTrackTexts s \<and> oldText \<noteq> text changedTrack
                     then s\<lparr>filteredTrackTexts := filteredTrackTexts s - {oldText}\<rparr>
                     else s);
               s2 = s1\<lparr>tracks := mapSet (trackId changedTrack) track' (tracks s1)\<rparr>
           in setSessionWeightedPrompts now s2))"

definition handleTrackRemoved :: "int \<Rightarrow> jsstring \<Rightarrow> PromptDj \<Rightarrow> PromptDj" where
  "handleTrackRemoved now trackIdToRemove s =
     (case map_of (tracks s) trackIdToRemove of
        None \<Rightarrow> s
      | Some track \<Rightarrow>
          (let s1 = (if text track \<in> filteredTrackTexts s
                     then s\<lparr>filteredTrackTexts := filteredTrackTexts s - {text track}\<rparr>
                     else s);
               s2 = s1\<lparr>tracks := mapDelete trackIdToRemove (tracks s1)\<rparr>
           in setSessionWeightedPrompts now s2))"

subsection \<open>User controls (lines 1310-1322, 1412-1428)\<close>

definition handlePlayPause :: "int \<Rightarrow> real \<Rightarrow> ConnectOutcome \<Rightarrow> PromptDj \<Rightarrow> PromptDj" where
  "handlePlayPause now currentTime outcome s =
     (if playbackState s = playing then pauseAudio currentTime s
      else if playbackState s = paused \<or> playbackState s = stopped then
        (if connectionError s then
           (let s1 = connectToSession outcome s
            in if \<not> session s1
               then toastShow (utf16 ''Session not initialized after connect'') s1
               else (let s2 = setSessionWeightedPrompts now s1
                     in if \<not> connectionError s2 then loadAudio currentTime s2 else s2))
         else loadAudio currentTime s)
      else if playbackState s = loading then stopAudio currentTime s
      else s)"

definition handleReset :: "int \<Rightarrow> real \<Rightarrow> ConnectOutcome \<Rightarrow> PromptDj \<Rightarrow> PromptDj" where
  "handleReset now currentTime outcome s =
     (let s1 = (if connectionError s then connectToSession outcome s else s)
      in if connectionError s \<and> \<not> session s1
         then toastShow (utf16 ''Session not initialized after connect'') s1
         else (let s2 = pauseAudio currentTime s1;
                   s3 = sessionCall ResetContext s2;
                   s4 = resetToDefaults now s3
               in if playbackState s4 \<noteq> stopped \<and> playbackState s4 \<noteq> paused
                     \<and> \<not> connectionError s4
                  then s4\<lparr>timers := timers s4 @ [(now + 200, ResumeAfterReset)]\<rparr>
                  else if connectionError s4 \<and> playbackState s4 \<noteq> stopped
                          \<and> playbackState s4 \<noteq> paused
                  then s4\<lparr>playbackState := paused\<rparr>
                  else s4))"

subsection \<open>Construction (lines 1147-1178)\<close>

text \<open>
  The component as its constructor leaves it, before \<open>firstUpdated\<close> connects: no session,
  the connection-error flag set, playback stopped, the scheduling offset \<open>0\<close> (unset). The
  state of the platform's audio context is given.
\<close>

definition newPromptDj :: "AudioContextState \<Rightarrow> (jsstring \<times> Track) list \<Rightarrow> PromptDj" where
  "newPromptDj audio ts =
     \<lparr>tracks = ts, session = False, audioState = audio, outputNode = 0, nodesCreated = 1,
      nextStartTime = 0, playbackState = stopped, filteredTrackTexts = {},
      connectionError = True, settingsController = defaultSettings,
      promptsLastCall = 0, settingsLastCall = 0, outbound = [], toasts = [], gainCalls = [],
      resumeCalls = 0, started = [], timers = [], underruns = 0, unhandledRejections = []\<rparr>"

text \<open>\<open>firstUpdated\<close> (lines 1180-1183): connect, then publish the prompts.\<close>

definition firstUpdated :: "int \<Rightarrow> ConnectOutcome \<Rightarrow> PromptDj \<Rightarrow> PromptDj" where
  "firstUpdated now outcome s = setSessionWeightedPrompts now (connectToSession outcome s)"

subsection \<open>Sequences of events\<close>

text \<open>
  A sequence of \<open>track-changed\<close> events, handled one after the other; each carries the wall
  clock read while it is handled.
\<close>

fun trackEdits :: "(int \<times> Track) list \<Rightarrow> PromptDj \<Rightarrow> PromptDj" where
  "trackEdits [] s = s"
| "trackEdits ((now, changedTrack) # es) s = trackEdits es (handleTrackChanged now changedTrack s)"

text \<open>
  A stretch of playback with no user action in it: inbound server messages and timeouts that
  fire, handled one after the other.
\<close>

datatype RunEvent = Message int real ServerMessage | TimeoutFires int real nat

fun runEvent :: "RunEvent \<Rightarrow> PromptDj \<Rightarrow> PromptDj" where
  "runEvent (Message now currentTime e) s = onmessage now currentTime e s"
| "runEvent (TimeoutFires now currentTime k) s = fireTimer now currentTime k s"

fun playbackRun :: "RunEvent list \<Rightarrow> PromptDj \<Rightarrow> PromptDj" where
  "playbackRun [] s = s"
| "playbackRun (ev # evs) s = playbackRun evs (runEvent ev s)"

text \<open>
  What the platform guarantees of the readings an event carries: \<open>AudioContext.currentTime\<close>
  starts at 0 and never decreases, and the duration of an \<open>AudioBuffer\<close> is not negative.
\<close>

fun physical :: "RunEvent \<Rightarrow> bool" where
  "physical (Message now currentTime e) =
     (0 \<le> currentTime \<and>
      (case audioChunks e of Some (Some d # cs) \<Rightarrow> 0 \<le> d | _ \<Rightarrow> True))"
| "physical (TimeoutFires now currentTime k) = (0 \<le> currentTime)"

text \<open>Buffers that follow one another with no gap and no overlap.\<close>

fun contiguous :: "ScheduledBuffer list \<Rightarrow> bool" where
  "contiguous (a # b # bs) = (startTime b = startTime a + duration a \<and> contiguous (b # bs))"
| "contiguous bs = True"

section \<open>Concrete states used to exercise the theorems\<close>

text \<open>
  Each state is reached from the constructor by the component's own handlers. The wall clock
  is in milliseconds, the audio clock in seconds; the page connects at wall time 1000.
\<close>

definition drumsAndBass :: "(jsstring \<times> Track) list" where
  "drumsAndBass =
     [(utf16 ''track-0'', \<lparr>trackId = utf16 ''track-0'', name = utf16 ''Drums'',
         color = utf16 ''#FF6B6B'', text = utf16 ''kick pattern'', weight = 1\<rparr>),
      (utf16 ''track-1'', \<lparr>trackId = utf16 ''track-1'', name = utf16 ''Bass'',
         color = utf16 ''#FFD166'', text = [], weight = 1\<rparr>)]"

definition leadAndPad :: "(jsstring \<times> Track) list" where
  "leadAndPad =
     [(utf16 ''track-0'', \<lparr>trackId = utf16 ''track-0'', name = utf16 ''Lead'',
         color = utf16 ''#FF6B6B'', text = utf16 ''X'', weight = 1\<rparr>),
      (utf16 ''track-1'', \<lparr>trackId = utf16 ''track-1'', name = utf16 ''Pad'',
         color = utf16 ''#FFD166'', text = utf16 ''warm pad'', weight = 0.5\<rparr>)]"

text \<open>The service has filtered "X", the text of the first of two tracks.\<close>

definition filteredX :: PromptDj where
  "filteredX =
     onmessage 1500 0
       \<lparr>setupComplete = False, filteredPrompt = Some (utf16 ''X'', utf16 ''policy''),
        audioChunks = None\<rparr>
       (firstUpdated 1000 (Connected True) (newPromptDj running leadAndPad))"

definition leadWith :: "real \<Rightarrow> Track" where
  "leadWith w = \<lparr>trackId = utf16 ''track-0'', name = utf16 ''Lead'', color = utf16 ''#FF6B6B'',
     text = utf16 ''bright synth'', weight = w\<rparr>"

text \<open>One track, connected, its prompt published once.\<close>

definition soloLead :: PromptDj where
  "soloLead =
     firstUpdated 1000 (Connected True) (newPromptDj running [(utf16 ''track-0'', leadWith 1)])"

text \<open>Five edits of the track's weight within 50 ms, four seconds later.\<close>

definition fiveEdits :: "(int \<times> Track) list" where
  "fiveEdits =
     [(5000, leadWith 0.1), (5010, leadWith 0.2), (5020, leadWith 0.3), (5030, leadWith 0.4),
      (5040, leadWith 0.5)]"

definition chunkMsg :: "real \<Rightarrow> ServerMessage" where
  "chunkMsg d = \<lparr>setupComplete = False, filteredPrompt = None, audioChunks = Some [Some d]\<rparr>"

text \<open>
  A first run: play is pressed at audio time 0, the first chunk (one second of audio) is
  scheduled at once, and the lookahead timeout fires two seconds later.
\<close>

definition loadingLead :: PromptDj where
  "loadingLead = handlePlayPause 2000 0 ConnectFailed soloLead"

definition bufferedLead :: PromptDj where
  "bufferedLead = onmessage 2100 0 (chunkMsg 1) loadingLead"

definition playingLead :: PromptDj where
  "playingLead = fireTimer 4100 2 0 bufferedLead"

text \<open>
  The run is interrupted while its lookahead timeout is still pending: reset is pressed,
  then play.
\<close>

definition resetLead :: PromptDj where
  "resetLead = handleReset 2500 0.4 ConnectFailed bufferedLead"

definition replayLead :: PromptDj where
  "replayLead = handlePlayPause 2600 0.5 ConnectFailed resetLead"

text \<open>Three chunks of one second each, the lookahead timeout firing after the second.\<close>

definition threeChunks :: "RunEvent list" where
  "threeChunks =
     [Message 2100 0 (chunkMsg 1), Message 3100 1 (chunkMsg 1), TimeoutFires 4100 2 0,
      Message 4200 2.1 (chunkMsg 1)]"

section \<open>What each operation sends to the session\<close>

lemma outbound_sessionCall:
  "outbound (sessionCall c s) = (if session s then outbound s @ [c] else outbound s)"
  by (simp add: sessionCall_def)

lemma outbound_pauseAudio:
  "outbound (pauseAudio ct s) = (if session s then outbound s @ [Pause] else outbound s)"
  by (simp add: pauseAudio_def sessionCall_def Let_def)

lemma outbound_setSessionWeightedPrompts:
  "outbound (setSessionWeightedPrompts now s) =
     (if 200 \<le> now - promptsLastCall s \<and> session s
      then outbound s @ [SetWeightedPrompts (promptsToSend s)]
      else outbound s)"
  by (simp add: setSessionWeightedPrompts_def throttle_def sendWeightedPrompts_def Let_def)

lemma lastCall_setSessionWeightedPrompts:
  "promptsLastCall (setSessionWeightedPrompts now s) =
     (if 200 \<le> now - promptsLastCall s then now else promptsLastCall s)"
  by (simp add: setSessionWeightedPrompts_def throttle_def sendWeightedPrompts_def Let_def)

lemma setSessionWeightedPrompts_fields [simp]:
  "session (setSessionWeightedPrompts now s) = session s"
  "filteredTrackTexts (setSessionWeightedPrompts now s) = filteredTrackTexts s"
  "tracks (setSessionWeightedPrompts now s) = tracks s"
  "playbackState (setSessionWeightedPrompts now s) = playbackState s"
  "connectionError (setSessionWeightedPrompts now s) = connectionError s"
  "toasts (setSessionWeightedPrompts now s) = toasts s"
  by (simp_all add: setSessionWeightedPrompts_def throttle_def sendWeightedPrompts_def Let_def)

lemma updateSettings_fields:
  "outbound (updateSettings now detail s) =
     (if 200 \<le> now - settingsLastCall s \<and> session s
      then outbound s @ [SetMusicGenerationConfig detail] else outbound s)"
  "toasts (updateSettings now detail s) = toasts s"
  "playbackState (updateSettings now detail s) = playbackState s"
  "unhandledRejections (updateSettings now detail s) = unhandledRejections s"
  by (simp_all add: updateSettings_def throttle_def sendGenerationConfig_def Let_def)

lemma resetToDefaults_fields:
  "outbound (resetToDefaults now s) =
     (if 200 \<le> now - settingsLastCall s \<and> session s
      then outbound s @ [SetMusicGenerationConfig (configToSend defaultSettings)]
      else outbound s)"
  "settingsController (resetToDefaults now s) = defaultSettings"
  by (simp_all add: resetToDefaults_def updateSettings_def throttle_def sendGenerationConfig_def
      Let_def)

lemma resetToDefaults_keeps [simp]:
  "timers (resetToDefaults now s) = timers s"
  "playbackState (resetToDefaults now s) = playbackState s"
  "connectionError (resetToDefaults now s) = connectionError s"
  "nextStartTime (resetToDefaults now s) = nextStartTime s"
  "started (resetToDefaults now s) = started s"
  by (simp_all add: resetToDefaults_def updateSettings_def throttle_def sendGenerationConfig_def
      Let_def)

lemma sessionCall_keeps [simp]:
  "session (sessionCall c s) = session s" "timers (sessionCall c s) = timers s"
  "playbackState (sessionCall c s) = playbackState s"
  "connectionError (sessionCall c s) = connectionError s"
  "nextStartTime (sessionCall c s) = nextStartTime s" "started (sessionCall c s) = started s"
  "settingsLastCall (sessionCall c s) = settingsLastCall s"
  by (simp_all add: sessionCall_def)

lemma pauseAudio_fields [simp]:
  "playbackState (pauseAudio ct s) = paused" "nextStartTime (pauseAudio ct s) = 0"
  "session (pauseAudio ct s) = session s" "timers (pauseAudio ct s) = timers s"
  "connectionError (pauseAudio ct s) = connectionError s" "started (pauseAudio ct s) = started s"
  "settingsLastCall (pauseAudio ct s) = settingsLastCall s"
  "filteredTrackTexts (pauseAudio ct s) = filteredTrackTexts s" "tracks (pauseAudio ct s) = tracks s"
  by (simp_all add: pauseAudio_def sessionCall_def Let_def)

lemma stopAudio_fields [simp]:
  "playbackState (stopAudio ct s) = stopped" "nextStartTime (stopAudio ct s) = 0"
  "timers (stopAudio ct s) = timers s"
  by (simp_all add: stopAudio_def sessionCall_def Let_def)

lemma loadAudio_fields [simp]:
  "playbackState (loadAudio ct s) = loading" "nextStartTime (loadAudio ct s) = nextStartTime s"
  "timers (loadAudio ct s) = timers s" "started (loadAudio ct s) = started s"
  by (simp_all add: loadAudio_def sessionCall_def Let_def)

lemma timers_connectToSession [simp]: "timers (connectToSession outcome s) = timers s"
  by (simp add: connectToSession_def toastShow_def split: ConnectOutcome.splits)

lemma timers_toastShow [simp]: "timers (toastShow m s) = timers s"
  by (simp add: toastShow_def)

section \<open>The derived prompt list, the tracks and the filtered texts\<close>

lemma promptsToSend_sound:
  "p \<in> set (promptsToSend s) \<Longrightarrow>
   \<exists>track \<in> snd ` set (tracks s).
      prompt_text p = name track @ utf16 '': '' @ text track \<and> prompt_weight p = weight track \<and>
      0 < weight track \<and> trim (text track) \<noteq> [] \<and> text track \<notin> filteredTrackTexts s"
proof -
  assume "p \<in> set (promptsToSend s)"
  then obtain track where t: "track \<in> snd ` set (tracks s)"
    and ok: "text track \<notin> filteredTrackTexts s" "0 < weight track" "trim (text track) \<noteq> []"
    and p: "p = \<lparr>prompt_text = name track @ utf16 '': '' @ text track,
                  prompt_weight = weight track\<rparr>"
    unfolding promptsToSend_def by auto
  show ?thesis
    by (rule bexI [OF _ t]) (simp add: p ok)
qed

lemma promptsToSend_complete:
  assumes "track \<in> snd ` set (tracks s)" and "text track \<notin> filteredTrackTexts s"
    and "0 < weight track" and "trim (text track) \<noteq> []"
  shows "\<lparr>prompt_text = name track @ utf16 '': '' @ text track, prompt_weight = weight track\<rparr>
           \<in> set (promptsToSend s)"
proof -
  have "track \<in> set (filter (\<lambda>track. text track \<notin> filteredTrackTexts s \<and> weight track > 0
                        \<and> trim (text track) \<noteq> []) (map snd (tracks s)))"
    using assms by simp
  then show ?thesis
    unfolding promptsToSend_def set_map by (rule imageI)
qed

lemma promptsToSend_cong:
  "tracks s' = tracks s \<Longrightarrow> filteredTrackTexts s' = filteredTrackTexts s \<Longrightarrow>
   promptsToSend s' = promptsToSend s"
  by (simp add: promptsToSend_def)

lemma filtered_handleTrackChanged:
  "filteredTrackTexts (handleTrackChanged now changedTrack s) =
     (case map_of (tracks s) (trackId changedTrack) of
        None \<Rightarrow> filteredTrackTexts s
      | Some track \<Rightarrow>
          if text track \<in> filteredTrackTexts s \<and> text track \<noteq> text changedTrack
          then filteredTrackTexts s - {text track} else filteredTrackTexts s)"
  by (simp add: handleTrackChanged_def Let_def split: option.splits)

lemma tracks_handleTrackChanged:
  "tracks (handleTrackChanged now changedTrack s) =
     (case map_of (tracks s) (trackId changedTrack) of
        None \<Rightarrow> tracks s
      | Some track \<Rightarrow>
          mapSet (trackId changedTrack)
            (track\<lparr>name := name changedTrack, text := text changedTrack,
                   weight := weight changedTrack\<rparr>) (tracks s))"
  by (simp add: handleTrackChanged_def Let_def split: option.splits)

lemma filtered_handleTrackRemoved:
  "filteredTrackTexts (handleTrackRemoved now k s) =
     (case map_of (tracks s) k of
        None \<Rightarrow> filteredTrackTexts s
      | Some track \<Rightarrow> filteredTrackTexts s - {text track})"
  by (auto simp add: handleTrackRemoved_def Let_def split: option.splits)

lemma mapSet_mem: "(k, v) \<in> set (mapSet k v m)"
  by (induction m) auto

lemma filteredX_fields:
  "tracks filteredX = leadAndPad" "filteredTrackTexts filteredX = {utf16 ''X''}"
  "session filteredX"
  by (simp_all add: filteredX_def onmessage_def handleNotices_def firstUpdated_def
      connectToSession_def newPromptDj_def toastShow_def)

section \<open>The throttle on prompt sends\<close>

lemma dropped_handleTrackChanged:
  assumes "now - promptsLastCall s < 200"
  shows "outbound (handleTrackChanged now c s) = outbound s"
    and "promptsLastCall (handleTrackChanged now c s) = promptsLastCall s"
  using assms
  by (simp_all add: handleTrackChanged_def Let_def outbound_setSessionWeightedPrompts
      lastCall_setSessionWeightedPrompts split: option.splits)

lemma dropped_trackEdits:
  "\<forall>e \<in> set es. fst e - promptsLastCall s < 200 \<Longrightarrow>
   outbound (trackEdits es s) = outbound s \<and> promptsLastCall (trackEdits es s) = promptsLastCall s"
proof (induction es arbitrary: s)
  case Nil
  then show ?case by simp
next
  case (Cons e es)
  obtain t c where e: "e = (t, c)" by (cases e)
  from Cons.prems e have d: "t - promptsLastCall s < 200" by simp
  let ?s = "handleTrackChanged t c s"
  have "\<forall>e \<in> set es. fst e - promptsLastCall ?s < 200"
    using Cons.prems by (simp add: dropped_handleTrackChanged(2) [OF d])
  from Cons.IH [OF this] show ?case
    by (simp add: e dropped_handleTrackChanged [OF d])
qed

lemma first_handleTrackChanged:
  assumes "session s" and "map_of (tracks s) (trackId c) \<noteq> None"
    and "200 \<le> now - promptsLastCall s"
  shows "outbound (handleTrackChanged now c s) =
           outbound s @ [SetWeightedPrompts (promptsToSend (handleTrackChanged now c s))]"
    and "promptsLastCall (handleTrackChanged now c s) = now"
proof -
  from assms(2) obtain track where tr: "map_of (tracks s) (trackId c) = Some track" by auto
  define s2 where "s2 = (if text track \<in> filteredTrackTexts s \<and> text track \<noteq> text c
                     then s\<lparr>filteredTrackTexts := filteredTrackTexts s - {text track}\<rparr>
                     else s)\<lparr>tracks := mapSet (trackId c) (track\<lparr>name := name c, text := text c,
                               weight := weight c\<rparr>) (tracks s)\<rparr>"
  have h: "handleTrackChanged now c s = setSessionWeightedPrompts now s2"
    by (simp add: handleTrackChanged_def tr Let_def s2_def)
  have f: "session s2" "promptsLastCall s2 = promptsLastCall s" "outbound s2 = outbound s"
    using assms(1) by (simp_all add: s2_def)
  have "promptsToSend (setSessionWeightedPrompts now s2) = promptsToSend s2"
    by (rule promptsToSend_cong) simp_all
  then show "outbound (handleTrackChanged now c s) =
           outbound s @ [SetWeightedPrompts (promptsToSend (handleTrackChanged now c s))]"
    using assms(3) by (simp add: h outbound_setSessionWeightedPrompts f)
  show "promptsLastCall (handleTrackChanged now c s) = now"
    using assms(3) by (simp add: h lastCall_setSessionWeightedPrompts f)
qed

lemma soloLead_fields:
  "session soloLead" "promptsLastCall soloLead = 1000" "settingsLastCall soloLead = 0"
  "outbound soloLead =
     [SetWeightedPrompts [\<lparr>prompt_text = utf16 ''Lead: bright synth'', prompt_weight = 1\<rparr>]]"
  "tracks soloLead = [(utf16 ''track-0'', leadWith 1)]" "filteredTrackTexts soloLead = {}"
  "playbackState soloLead = stopped" "connectionError soloLead = False"
  "audioState soloLead = running" "outputNode soloLead = 0" "nextStartTime soloLead = 0"
  "started soloLead = []" "timers soloLead = []" "underruns soloLead = 0" "toasts soloLead = []"
  "unhandledRejections soloLead = []" "gainCalls soloLead = []"
  by (simp_all add: soloLead_def firstUpdated_def setSessionWeightedPrompts_def throttle_def
      sendWeightedPrompts_def promptsToSend_def connectToSession_def newPromptDj_def leadWith_def
      utf16_def trim_def isWhiteSpace_def Let_def)

lemma soloLead_first_edit:
  "promptsToSend (handleTrackChanged 5000 (leadWith 0.1) soloLead) =
     [\<lparr>prompt_text = utf16 ''Lead: bright synth'', prompt_weight = 0.1\<rparr>]"
proof -
  have "tracks (handleTrackChanged 5000 (leadWith 0.1) soloLead) =
          [(utf16 ''track-0'', leadWith 0.1)]"
    by (simp add: tracks_handleTrackChanged soloLead_fields leadWith_def)
  moreover have "filteredTrackTexts (handleTrackChanged 5000 (leadWith 0.1) soloLead) = {}"
    by (simp add: filtered_handleTrackChanged soloLead_fields leadWith_def)
  ultimately show ?thesis
    by (simp add: promptsToSend_def leadWith_def utf16_def trim_def isWhiteSpace_def)
qed

section \<open>The first run, evaluated\<close>

lemma loadingLead_eq:
  "loadingLead = soloLead\<lparr>playbackState := loading, outbound := outbound soloLead @ [Play],
     gainCalls := [SetValueAt 0 0 0, LinearRampTo 0 1 0.2]\<rparr>"
  by (simp add: loadingLead_def handlePlayPause_def soloLead_fields loadAudio_def
      sessionCall_def Let_def)

lemma bufferedLead_eq:
  "bufferedLead = loadingLead\<lparr>nextStartTime := 3, timers := [(4100, LookaheadDeadline)],
     started := [\<lparr>node = 0, startTime = 2, duration = 1\<rparr>]\<rparr>"
  by (simp add: bufferedLead_def onmessage_def handleNotices_def chunkMsg_def loadingLead_eq
      scheduleBuffer_def bufferTime_def soloLead_fields Let_def)

lemma playingLead_eq:
  "playingLead = bufferedLead\<lparr>playbackState := playing, timers := []\<rparr>"
  by (simp add: playingLead_def fireTimer_def runTimer_def bufferedLead_eq loadingLead_eq)

lemma loadingLead_fields:
  "started loadingLead = []" "underruns loadingLead = 0" "playbackState loadingLead = loading"
  by (simp_all add: loadingLead_eq soloLead_fields)

lemma bufferedLead_fields:
  "playbackState bufferedLead = loading" "session bufferedLead" "nextStartTime bufferedLead = 3"
  "audioState bufferedLead = running" "outbound bufferedLead = outbound soloLead @ [Play]"
  "outputNode bufferedLead = 0"
  "started bufferedLead = [\<lparr>node = 0, startTime = 2, duration = 1\<rparr>]"
  "underruns bufferedLead = 0" "timers bufferedLead = [(4100, LookaheadDeadline)]"
  "connectionError bufferedLead = False"
  by (simp_all add: bufferedLead_eq loadingLead_eq soloLead_fields)

lemma playingLead_fields:
  "playbackState playingLead = playing" "session playingLead" "nextStartTime playingLead = 3"
  "audioState playingLead = running" "outbound playingLead = outbound soloLead @ [Play]"
  "outputNode playingLead = 0"
  "started playingLead = [\<lparr>node = 0, startTime = 2, duration = 1\<rparr>]"
  "underruns playingLead = 0" "timers playingLead = []" "connectionError playingLead = False"
  "settingsLastCall playingLead = 0" "promptsLastCall playingLead = 1000"
  "toasts playingLead = []" "unhandledRejections playingLead = []"
  by (simp_all add: playingLead_eq bufferedLead_eq loadingLead_eq soloLead_fields)

section \<open>Timers, reset and the playback state\<close>

lemma timers_handleReset: "timers (handleReset now ct outcome s) = timers s"
  by (simp add: handleReset_def Let_def)

lemma handleReset_connected:
  "\<not> connectionError s \<Longrightarrow>
   handleReset now ct outcome s = resetToDefaults now (sessionCall ResetContext (pauseAudio ct s))"
  by (simp add: handleReset_def Let_def)

lemma resetLead_fields:
  "playbackState resetLead = paused" "timers resetLead = [(4100, LookaheadDeadline)]"
  "connectionError resetLead = False" "nextStartTime resetLead = 0"
  "started resetLead = [\<lparr>node = 0, startTime = 2, duration = 1\<rparr>]"
  by (simp_all add: resetLead_def handleReset_connected bufferedLead_fields)

lemma replayLead_fields:
  "playbackState replayLead = loading" "timers replayLead = [(4100, LookaheadDeadline)]"
  "nextStartTime replayLead = 0"
  "started replayLead = [\<lparr>node = 0, startTime = 2, duration = 1\<rparr>]"
  by (simp_all add: replayLead_def handlePlayPause_def resetLead_fields)

lemma fire_lookahead:
  assumes "k < length (timers s)" and "fst (timers s ! k) \<le> now"
    and "snd (timers s ! k) = LookaheadDeadline"
  shows "playbackState (fireTimer now ct k s) =
           (if playbackState s = loading then playing else playbackState s)"
    and "nextStartTime (fireTimer now ct k s) = nextStartTime s"
    and "started (fireTimer now ct k s) = started s"
  using assms by (simp_all add: fireTimer_def runTimer_def)

lemma rejected_prompts:
  "playbackState (onSettled (SetWeightedPrompts ps) (Rejected m) ct s) = paused"
  "toasts (onSettled (SetWeightedPrompts ps) (Rejected m) ct s) =
     toasts s @ [orElse m (utf16 ''Error setting prompts'')]"
  by (simp_all add: onSettled_def toastShow_def pauseAudio_def sessionCall_def Let_def)

lemma rejected_config:
  "playbackState (onSettled (SetMusicGenerationConfig detail) (Rejected m) ct s) = playbackState s"
  "toasts (onSettled (SetMusicGenerationConfig detail) (Rejected m) ct s) = toasts s"
  "unhandledRejections (onSettled (SetMusicGenerationConfig detail) (Rejected m) ct s) =
     unhandledRejections s @ [m]"
  by (simp_all add: onSettled_def)

section \<open>Scheduling one buffer\<close>

lemma scheduleBuffer_underrun:
  assumes "(if nextStartTime s = 0 then ct + bufferTime else nextStartTime s) < ct"
  shows "playbackState (scheduleBuffer now ct d s) = loading"
    and "underruns (scheduleBuffer now ct d s) = Suc (underruns s)"
    and "started (scheduleBuffer now ct d s) =
           started s @ [\<lparr>node = outputNode s, startTime = ct + 1, duration = d\<rparr>]"
    and "nextStartTime (scheduleBuffer now ct d s) = ct + 1 + d"
  using assms by (simp_all add: scheduleBuffer_def bufferTime_def Let_def split: if_splits)

lemma scheduleBuffer_on_time:
  assumes "ct \<le> (if nextStartTime s = 0 then ct + bufferTime else nextStartTime s)"
  shows "playbackState (scheduleBuffer now ct d s) = playbackState s"
    and "underruns (scheduleBuffer now ct d s) = underruns s"
    and "started (scheduleBuffer now ct d s) =
           started s @ [\<lparr>node = outputNode s,
                        startTime = (if nextStartTime s = 0 then ct + bufferTime
                                     else nextStartTime s),
                        duration = d\<rparr>]"
    and "nextStartTime (scheduleBuffer now ct d s) =
           (if nextStartTime s = 0 then ct + bufferTime else nextStartTime s) + d"
  using assms by (simp_all add: scheduleBuffer_def bufferTime_def Let_def split: if_splits)

lemma handleNotices_fields [simp]:
  "playbackState (handleNotices e s) = playbackState s"
  "nextStartTime (handleNotices e s) = nextStartTime s"
  "started (handleNotices e s) = started s" "underruns (handleNotices e s) = underruns s"
  "outputNode (handleNotices e s) = outputNode s"
  by (simp_all add: handleNotices_def toastShow_def Let_def split: option.splits prod.splits)

lemma onmessage_chunk:
  assumes "playbackState s = loading \<or> playbackState s = playing"
    and "audioChunks e = Some (Some d # cs)"
  shows "onmessage now ct e s = scheduleBuffer now ct d (handleNotices e s)"
  using assms by (auto simp add: onmessage_def Let_def)

section \<open>Runs of events and contiguity\<close>

lemma contiguous_snoc:
  "contiguous (bs @ [b]) =
     (contiguous bs \<and> (bs \<noteq> [] \<longrightarrow> startTime b = startTime (last bs) + duration (last bs)))"
  by (induction bs rule: contiguous.induct) auto

lemma contiguous_nth:
  "contiguous bs \<Longrightarrow> Suc i < length bs \<Longrightarrow>
   startTime (bs ! Suc i) = startTime (bs ! i) + duration (bs ! i)"
proof (induction bs arbitrary: i rule: contiguous.induct)
  case (1 a b bs)
  then show ?case by (cases i) auto
qed simp_all

lemma underruns_scheduleBuffer: "underruns s \<le> underruns (scheduleBuffer now ct d s)"
  by (simp add: scheduleBuffer_def Let_def)

lemma runEvent_cases:
  "(started (runEvent ev s) = started s \<and> nextStartTime (runEvent ev s) = nextStartTime s
      \<and> underruns (runEvent ev s) = underruns s)
   \<or> (\<exists>now ct e d cs. ev = Message now ct e \<and> audioChunks e = Some (Some d # cs)
        \<and> runEvent ev s = scheduleBuffer now ct d (handleNotices e s))"
proof (cases ev)
  case (Message now ct e)
  then show ?thesis
    by (auto simp: onmessage_def Let_def split: option.splits list.splits)
next
  case (TimeoutFires now ct k)
  then show ?thesis
    by (simp add: fireTimer_def runTimer_def loadAudio_def sessionCall_def Let_def
        split: TimerAction.splits)
qed

lemma underruns_runEvent: "underruns s \<le> underruns (runEvent ev s)"
  using runEvent_cases [of ev s]
proof (elim disjE exE conjE)
  fix now ct e d cs
  assume "runEvent ev s = scheduleBuffer now ct d (handleNotices e s)"
  with underruns_scheduleBuffer [of "handleNotices e s" now ct d] show ?thesis by simp
qed simp

lemma underruns_playbackRun: "underruns s \<le> underruns (playbackRun evs s)"
proof (induction evs arbitrary: s)
  case Nil
  then show ?case by simp
next
  case (Cons ev evs)
  have "underruns s \<le> underruns (runEvent ev s)" by (rule underruns_runEvent)
  also have "\<dots> \<le> underruns (playbackRun evs (runEvent ev s))" by (rule Cons.IH)
  finally show ?case by simp
qed

lemma runEvent_keeps_contiguous:
  assumes phys: "physical ev" and nounder: "underruns (runEvent ev s) = underruns s"
    and st: "started s = base @ new" and co: "contiguous new"
    and nx: "new \<noteq> [] \<longrightarrow>
               nextStartTime s = startTime (last new) + duration (last new) \<and> 0 < nextStartTime s"
  shows "\<exists>new'. started (runEvent ev s) = base @ new' \<and> contiguous new' \<and>
           (new' \<noteq> [] \<longrightarrow>
              nextStartTime (runEvent ev s) = startTime (last new') + duration (last new')
              \<and> 0 < nextStartTime (runEvent ev s))"
  using runEvent_cases [of ev s]
proof (elim disjE exE conjE)
  assume "started (runEvent ev s) = started s" "nextStartTime (runEvent ev s) = nextStartTime s"
  with st co nx show ?thesis by auto
next
  fix now ct e d cs
  assume ev: "ev = Message now ct e" and ch: "audioChunks e = Some (Some d # cs)"
    and run: "runEvent ev s = scheduleBuffer now ct d (handleNotices e s)"
  let ?s = "handleNotices e s"
  let ?offset = "if nextStartTime ?s = 0 then ct + bufferTime else nextStartTime ?s"
  from phys ev ch have ct: "0 \<le> ct" and d: "0 \<le> d" by simp_all
  have ontime: "ct \<le> ?offset"
  proof (rule ccontr)
    assume "\<not> ct \<le> ?offset"
    then have "?offset < ct" by simp
    from scheduleBuffer_underrun(2) [OF this, of now d] nounder run show False by simp
  qed
  note eff = scheduleBuffer_on_time [OF ontime, of now d]
  let ?b = "\<lparr>node = outputNode ?s, startTime = ?offset, duration = d\<rparr>"
  have pos: "0 < ?offset"
    using ct ontime by (auto simp: bufferTime_def split: if_splits)
  have link: "new \<noteq> [] \<longrightarrow> startTime ?b = startTime (last new) + duration (last new)"
    using nx by auto
  have "started (runEvent ev s) = base @ (new @ [?b])"
    using eff(3) st by (simp add: run)
  moreover have "contiguous (new @ [?b])"
    using co link by (simp only: contiguous_snoc)
  moreover have "nextStartTime (runEvent ev s) = startTime (last (new @ [?b])) + duration (last (new @ [?b]))"
    using eff(4) by (simp add: run)
  moreover have "0 < nextStartTime (runEvent ev s)"
    using eff(4) pos d by (simp add: run)
  ultimately show ?thesis by blast
qed

lemma playbackRun_keeps_contiguous:
  assumes "\<forall>ev \<in> set evs. physical ev" and "underruns (playbackRun evs s) = underruns s"
    and "started s = base @ new" and "contiguous new"
    and "new \<noteq> [] \<longrightarrow>
           nextStartTime s = startTime (last new) + duration (last new) \<and> 0 < nextStartTime s"
  shows "\<exists>new'. started (playbackRun evs s) = base @ new' \<and> contiguous new'"
  using assms
proof (induction evs arbitrary: s new)
  case Nil
  then show ?case by simp
next
  case (Cons ev evs)
  let ?s = "runEvent ev s"
  have "underruns s \<le> underruns ?s" by (rule underruns_runEvent)
  moreover have "underruns ?s \<le> underruns (playbackRun evs ?s)" by (rule underruns_playbackRun)
  ultimately have u1: "underruns ?s = underruns s"
    and u2: "underruns (playbackRun evs ?s) = underruns ?s"
    using Cons.prems(2) by simp_all
  from Cons.prems(1) have p: "physical ev" and ps: "\<forall>ev \<in> set evs. physical ev" by simp_all
  from runEvent_keeps_contiguous [OF p u1 Cons.prems(3,4,5)]
  obtain new' where n: "started ?s = base @ new'" "contiguous new'"
    "new' \<noteq> [] \<longrightarrow> nextStartTime ?s = startTime (last new') + duration (last new')
       \<and> 0 < nextStartTime ?s"
    by blast
  from Cons.IH [OF ps u2 n] show ?case by simp
qed

lemma threeChunks_run:
  "started (playbackRun threeChunks loadingLead) =
     [\<lparr>node = 0, startTime = 2, duration = 1\<rparr>, \<lparr>node = 0, startTime = 3, duration = 1\<rparr>,
      \<lparr>node = 0, startTime = 4, duration = 1\<rparr>]"
  "underruns (playbackRun threeChunks loadingLead) = 0"
  "playbackState (playbackRun threeChunks loadingLead) = playing"
  by (simp_all add: threeChunks_def onmessage_def handleNotices_def scheduleBuffer_def
      fireTimer_def runTimer_def chunkMsg_def loadingLead_eq soloLead_fields bufferTime_def Let_def)

section \<open>Throttled publishing\<close>

text \<open>
  C1, as stated: calls within one 200 ms window collapse to one send that carries the state of
  the later call; five edits within 50 ms with weights 0.1 to 0.5 send weight 0.5 once. On the
  code the five edits add one send, and it carries weight 0.1: \<open>throttle\<close> runs the first
  call of a window and drops the others, and keeps nothing pending.
\<close>

theorem burst_latest_wins_counterexample:
  "outbound (trackEdits fiveEdits soloLead) \<noteq>
     outbound soloLead @
     [SetWeightedPrompts [\<lparr>prompt_text = utf16 ''Lead: bright synth'', prompt_weight = 0.5\<rparr>]]
   \<and> outbound (trackEdits fiveEdits soloLead) =
     outbound soloLead @
     [SetWeightedPrompts [\<lparr>prompt_text = utf16 ''Lead: bright synth'', prompt_weight = 0.1\<rparr>]]"
proof -
  let ?s = "handleTrackChanged 5000 (leadWith 0.1) soloLead"
  have "session soloLead" "map_of (tracks soloLead) (trackId (leadWith 0.1)) \<noteq> None"
    "200 \<le> 5000 - promptsLastCall soloLead"
    by (simp_all add: soloLead_fields leadWith_def)
  note first = first_handleTrackChanged [OF this]
  have "\<forall>e \<in> set (tl fiveEdits). fst e - promptsLastCall ?s < 200"
    by (simp add: first(2) fiveEdits_def)
  from dropped_trackEdits [OF this] have "outbound (trackEdits (tl fiveEdits) ?s) = outbound ?s"
    by simp
  moreover have "trackEdits fiveEdits soloLead = trackEdits (tl fiveEdits) ?s"
    by (simp add: fiveEdits_def)
  ultimately have "outbound (trackEdits fiveEdits soloLead) =
     outbound soloLead @
     [SetWeightedPrompts [\<lparr>prompt_text = utf16 ''Lead: bright synth'', prompt_weight = 0.1\<rparr>]]"
    by (simp add: first(1) soloLead_first_edit)
  then show ?thesis by simp
qed

text \<open>
  C1, amended: when a track edit arrives at least 200 ms after the last prompt send that ran,
  and any number of further edits arrive less than 200 ms after it, exactly one
  \<open>setWeightedPrompts\<close> send goes out. It is made by the first edit, when that edit is
  handled, and carries the prompt list derived from the state as the first edit left it; the
  later edits of the window send nothing.
\<close>

theorem burst_sends_first_state_once:
  assumes "session s" and "map_of (tracks s) (trackId c1) \<noteq> None"
    and "200 \<le> t1 - promptsLastCall s"
    and "\<forall>e \<in> set rest. t1 \<le> fst e \<and> fst e < t1 + 200"
  shows "outbound (trackEdits ((t1, c1) # rest) s) =
           outbound s @ [SetWeightedPrompts (promptsToSend (handleTrackChanged t1 c1 s))]"
proof -
  let ?s = "handleTrackChanged t1 c1 s"
  note first = first_handleTrackChanged [OF assms(1-3)]
  have "\<forall>e \<in> set rest. fst e - promptsLastCall ?s < 200"
    using assms(4) by (auto simp: first(2))
  from dropped_trackEdits [OF this] first(1) show ?thesis by simp
qed

text \<open>Five edits within 50 ms with weights 0.1 to 0.5: one send, with weight 0.1.\<close>

theorem burst_sends_first_state_once_witness:
  "session soloLead \<and> map_of (tracks soloLead) (trackId (leadWith 0.1)) \<noteq> None
   \<and> 200 \<le> 5000 - promptsLastCall soloLead
   \<and> fiveEdits = (5000, leadWith 0.1) # tl fiveEdits
   \<and> map fst (tl fiveEdits) = [5010, 5020, 5030, 5040]
   \<and> outbound (trackEdits fiveEdits soloLead) =
       outbound soloLead @
       [SetWeightedPrompts [\<lparr>prompt_text = utf16 ''Lead: bright synth'', prompt_weight = 0.1\<rparr>]]"
proof -
  have h1: "session soloLead" by (simp add: soloLead_fields)
  have h2: "map_of (tracks soloLead) (trackId (leadWith 0.1)) \<noteq> None"
    by (simp add: soloLead_fields leadWith_def)
  have h3: "200 \<le> 5000 - promptsLastCall soloLead" by (simp add: soloLead_fields)
  have h4: "\<forall>e \<in> set (tl fiveEdits). 5000 \<le> fst e \<and> fst e < 5000 + 200"
    by (simp add: fiveEdits_def)
  have f: "fiveEdits = (5000, leadWith 0.1) # tl fiveEdits"
    by (simp add: fiveEdits_def)
  from burst_sends_first_state_once [OF h1 h2 h3 h4]
  have "outbound (trackEdits fiveEdits soloLead) =
       outbound soloLead @
       [SetWeightedPrompts [\<lparr>prompt_text = utf16 ''Lead: bright synth'', prompt_weight = 0.1\<rparr>]]"
    unfolding f [symmetric] by (simp add: soloLead_first_edit)
  moreover have "map fst (tl fiveEdits) = [5010, 5020, 5030, 5040]"
    by (simp add: fiveEdits_def)
  ultimately show ?thesis using h1 h2 h3 f by blast
qed

section \<open>Reset\<close>

text \<open>
  C2. The claim: after a reset, play resumes after a fixed delay exactly when playback was
  active before the reset and the connection is healthy. \<open>handleReset\<close> holds that branch
  (a 200 ms timeout that calls \<open>loadAudio\<close>), but tests the playback state after
  \<open>pauseAudio\<close> has set it to \<open>paused\<close>, so the branch is never taken: no reset arms a
  timeout. With playback \<open>playing\<close> and the connection healthy, the reset pauses, sends
  reset-context and the default configuration, restores the default settings, and leaves the
  state \<open>paused\<close> with nothing pending.
\<close>

theorem reset_while_playing_stays_paused:
  "timers (handleReset now ct outcome s) = timers s
   \<and> playbackState playingLead = playing \<and> \<not> connectionError playingLead
   \<and> playbackState (handleReset 5000 2.9 ConnectFailed playingLead) = paused
   \<and> timers (handleReset 5000 2.9 ConnectFailed playingLead) = []
   \<and> outbound (handleReset 5000 2.9 ConnectFailed playingLead) =
       outbound playingLead @
       [Pause, ResetContext, SetMusicGenerationConfig (configToSend defaultSettings)]
   \<and> settingsController (handleReset 5000 2.9 ConnectFailed playingLead) = defaultSettings"
  by (simp add: timers_handleReset playingLead_fields handleReset_connected
      resetToDefaults_fields outbound_sessionCall outbound_pauseAudio)

section \<open>The play/pause button\<close>

text \<open>
  C3, as stated: a user pause while the state is \<open>loading\<close> leads to \<open>paused\<close> and issues
  pause to the session. On the code a click while \<open>loading\<close> takes the third branch of
  \<open>handlePlayPause\<close>, which calls \<open>stopAudio\<close>: the state becomes \<open>stopped\<close> and the
  session receives stop.
\<close>

theorem pause_while_loading_counterexample:
  "playbackState bufferedLead = loading
   \<and> playbackState (handlePlayPause 2500 0.4 ConnectFailed bufferedLead) \<noteq> paused
   \<and> playbackState (handlePlayPause 2500 0.4 ConnectFailed bufferedLead) = stopped
   \<and> outbound (handlePlayPause 2500 0.4 ConnectFailed bufferedLead) =
       outbound bufferedLead @ [Stop]"
  by (simp add: handlePlayPause_def stopAudio_def sessionCall_def Let_def bufferedLead_fields)

text \<open>
  C3, amended: a click on the play/pause button while \<open>playing\<close> sets the state to
  \<open>paused\<close> and issues pause to the session (when there is one); a click while \<open>loading\<close>
  sets the state to \<open>stopped\<close> and issues stop. In both cases the scheduling offset is reset
  to unset (0) and, when the audio context is running, the gain is held and ramped to 0 over
  100 ms.
\<close>

theorem pause_button_by_state:
  "(playbackState s = playing \<longrightarrow>
      playbackState (handlePlayPause now ct outcome s) = paused \<and>
      outbound (handlePlayPause now ct outcome s) =
        outbound s @ (if session s then [Pause] else []))
   \<and> (playbackState s = loading \<longrightarrow>
      playbackState (handlePlayPause now ct outcome s) = stopped \<and>
      outbound (handlePlayPause now ct outcome s) =
        outbound s @ (if session s then [Stop] else []))
   \<and> (playbackState s = playing \<or> playbackState s = loading \<longrightarrow>
      nextStartTime (handlePlayPause now ct outcome s) = 0 \<and>
      gainCalls (handlePlayPause now ct outcome s) =
        gainCalls s @ (if audioState s = running
                       then [HoldValueAt (outputNode s) ct,
                             LinearRampTo (outputNode s) 0 (ct + 0.1)]
                       else []))"
  by (simp add: handlePlayPause_def pauseAudio_def stopAudio_def sessionCall_def Let_def)

theorem pause_button_by_state_witness:
  "playbackState playingLead = playing
   \<and> playbackState (handlePlayPause 4500 2.4 ConnectFailed playingLead) = paused
   \<and> outbound (handlePlayPause 4500 2.4 ConnectFailed playingLead) =
       outbound playingLead @ [Pause]
   \<and> playbackState bufferedLead = loading
   \<and> playbackState (handlePlayPause 2500 0.4 ConnectFailed bufferedLead) = stopped
   \<and> outbound (handlePlayPause 2500 0.4 ConnectFailed bufferedLead) =
       outbound bufferedLead @ [Stop]
   \<and> nextStartTime (handlePlayPause 4500 2.4 ConnectFailed playingLead) = 0
   \<and> gainCalls (handlePlayPause 4500 2.4 ConnectFailed playingLead) =
       gainCalls playingLead @ [HoldValueAt 0 2.4, LinearRampTo 0 0 2.5]
   \<and> nextStartTime (handlePlayPause 2500 0.4 ConnectFailed bufferedLead) = 0
   \<and> gainCalls (handlePlayPause 2500 0.4 ConnectFailed bufferedLead) =
       gainCalls bufferedLead @ [HoldValueAt 0 0.4, LinearRampTo 0 0 0.5]"
  using pause_button_by_state [of playingLead 4500 "2.4" ConnectFailed]
    pause_button_by_state [of bufferedLead 2500 "0.4" ConnectFailed]
  by (simp add: playingLead_fields bufferedLead_fields)

section \<open>The lookahead timeout\<close>

text \<open>
  C4, as stated: pausing or stopping cancels an armed lookahead timeout, so it can never fire
  after the pause nor move a later run to \<open>playing\<close> early. On the code the timeout armed by
  the first chunk (due at 4100 ms) is still pending after reset has paused playback at 2500 ms;
  play is pressed at 2600 ms, and at 4100 ms the old timeout fires and sets the new run to
  \<open>playing\<close> although none of its chunks has been scheduled (the offset is still unset).
\<close>

theorem stale_lookahead_timer_counterexample:
  "timers bufferedLead = [(4100, LookaheadDeadline)]
   \<and> playbackState resetLead = paused
   \<and> timers resetLead = [(4100, LookaheadDeadline)]
   \<and> playbackState replayLead = loading
   \<and> nextStartTime replayLead = 0
   \<and> started replayLead = started bufferedLead
   \<and> playbackState (fireTimer 4100 2 0 replayLead) = playing"
  by (simp add: bufferedLead_fields resetLead_fields replayLead_fields fire_lookahead)

text \<open>
  C4, amended: pausing or stopping playback leaves every armed timeout pending; nothing
  cancels it. A lookahead timeout that fires while playback is paused or stopped is ignored:
  it is removed from the pending timeouts and nothing else changes.
\<close>

theorem lookahead_timer_survives_pause:
  "timers (pauseAudio ct s) = timers s \<and> timers (stopAudio ct s) = timers s
   \<and> (k < length (timers s) \<and> fst (timers s ! k) \<le> now
        \<and> snd (timers s ! k) = LookaheadDeadline
        \<and> (playbackState s = paused \<or> playbackState s = stopped) \<longrightarrow>
      fireTimer now ct' k s = s\<lparr>timers := take k (timers s) @ drop (Suc k) (timers s)\<rparr>)"
  by (auto simp add: fireTimer_def runTimer_def)

text \<open>
  The timeout armed by the first chunk survives a pause and a stop at audio time 0.4; fired
  at its deadline in the state the reset left paused, it only disappears.
\<close>

theorem lookahead_timer_survives_pause_witness:
  "timers (pauseAudio 0.4 bufferedLead) = [(4100, LookaheadDeadline)]
   \<and> timers (stopAudio 0.4 bufferedLead) = [(4100, LookaheadDeadline)]
   \<and> 0 < length (timers resetLead) \<and> fst (timers resetLead ! 0) \<le> 4100
   \<and> snd (timers resetLead ! 0) = LookaheadDeadline
   \<and> playbackState resetLead = paused
   \<and> fireTimer 4100 2 0 resetLead = resetLead\<lparr>timers := []\<rparr>"
  using lookahead_timer_survives_pause [of "0.4" bufferedLead 0 4100 2]
    lookahead_timer_survives_pause [of "0.4" resetLead 0 4100 2]
  by (simp add: bufferedLead_fields resetLead_fields)

section \<open>Underrun detection\<close>

text \<open>
  C5, as stated: a chunk whose start time has passed, offset \<open>\<le>\<close> now, is an underrun. On
  the code the test is \<open>nextStartTime < currentTime\<close>: with the offset at 3 and the audio
  clock at exactly 3, the chunk is scheduled at 3, the state stays \<open>playing\<close> and no underrun
  is counted.
\<close>

theorem underrun_at_equality_counterexample:
  "playbackState playingLead = playing \<and> nextStartTime playingLead \<le> 3
   \<and> playbackState (onmessage 5100 3 (chunkMsg 1) playingLead) \<noteq> loading
   \<and> playbackState (onmessage 5100 3 (chunkMsg 1) playingLead) = playing
   \<and> underruns (onmessage 5100 3 (chunkMsg 1) playingLead) = underruns playingLead
   \<and> started (onmessage 5100 3 (chunkMsg 1) playingLead) =
       [\<lparr>node = 0, startTime = 2, duration = 1\<rparr>, \<lparr>node = 0, startTime = 3, duration = 1\<rparr>]
   \<and> nextStartTime (onmessage 5100 3 (chunkMsg 1) playingLead) = 4"
proof -
  have "onmessage 5100 3 (chunkMsg 1) playingLead =
          scheduleBuffer 5100 3 1 (handleNotices (chunkMsg 1) playingLead)"
    by (rule onmessage_chunk) (simp_all add: playingLead_fields chunkMsg_def)
  moreover have "3 \<le> (if nextStartTime (handleNotices (chunkMsg 1) playingLead) = 0
                      then 3 + bufferTime
                      else nextStartTime (handleNotices (chunkMsg 1) playingLead))"
    by (simp add: playingLead_fields)
  ultimately show ?thesis
    using scheduleBuffer_on_time [of 3 "handleNotices (chunkMsg 1) playingLead" 5100 1]
    by (simp add: playingLead_fields)
qed

text \<open>
  C5, amended: for an audio chunk handled while \<open>loading\<close> or \<open>playing\<close>, let the offset be
  the scheduling offset after the first-chunk step (now + lookahead when it was unset). If the
  offset is strictly before the audio clock, the handler counts an underrun, sets the state to
  \<open>loading\<close> and schedules the buffer at now + lookahead/2, which is now + 1 second. If the
  offset is at or after the clock, equality included, there is no underrun: the state is
  kept and the buffer is scheduled at the offset. Either way the offset then advances by the
  buffer's duration.
\<close>

theorem underrun_when_start_strictly_passed:
  assumes "playbackState s = loading \<or> playbackState s = playing"
    and "audioChunks e = Some (Some d # cs)"
  shows "let offset = (if nextStartTime s = 0 then ct + bufferTime else nextStartTime s);
             s' = onmessage now ct e s
         in (offset < ct \<longrightarrow>
               playbackState s' = loading \<and> underruns s' = Suc (underruns s) \<and>
               started s' = started s @
                 [\<lparr>node = outputNode s, startTime = ct + bufferTime / 2, duration = d\<rparr>] \<and>
               bufferTime / 2 = 1 \<and> nextStartTime s' = ct + bufferTime / 2 + d)
          \<and> (ct \<le> offset \<longrightarrow>
               playbackState s' = playbackState s \<and> underruns s' = underruns s \<and>
               started s' = started s @
                 [\<lparr>node = outputNode s, startTime = offset, duration = d\<rparr>] \<and>
               nextStartTime s' = offset + d)"
  unfolding Let_def onmessage_chunk [OF assms]
  using scheduleBuffer_underrun [of "handleNotices e s" ct now d]
    scheduleBuffer_on_time [of ct "handleNotices e s" now d]
  by (simp add: bufferTime_def)


text \<open>With the offset at 3: a chunk at clock 5 is an underrun, a chunk at clock 3 is not.\<close>

theorem underrun_when_start_strictly_passed_witness:
  "(playbackState playingLead = loading \<or> playbackState playingLead = playing)
   \<and> audioChunks (chunkMsg 1) = Some (Some 1 # [])
   \<and> nextStartTime playingLead = 3
   \<and> playbackState (onmessage 7100 5 (chunkMsg 1) playingLead) = loading
   \<and> underruns (onmessage 7100 5 (chunkMsg 1) playingLead) = 1
   \<and> started (onmessage 7100 5 (chunkMsg 1) playingLead) =
       [\<lparr>node = 0, startTime = 2, duration = 1\<rparr>, \<lparr>node = 0, startTime = 6, duration = 1\<rparr>]
   \<and> nextStartTime (onmessage 7100 5 (chunkMsg 1) playingLead) = 7
   \<and> playbackState (onmessage 5100 3 (chunkMsg 1) playingLead) = playing
   \<and> underruns (onmessage 5100 3 (chunkMsg 1) playingLead) = 0
   \<and> started (onmessage 5100 3 (chunkMsg 1) playingLead) =
       [\<lparr>node = 0, startTime = 2, duration = 1\<rparr>, \<lparr>node = 0, startTime = 3, duration = 1\<rparr>]
   \<and> nextStartTime (onmessage 5100 3 (chunkMsg 1) playingLead) = 4"
proof -
  have h1: "playbackState playingLead = loading \<or> playbackState playingLead = playing"
    by (simp add: playingLead_fields)
  have h2: "audioChunks (chunkMsg 1) = Some (Some 1 # [])"
    by (simp add: chunkMsg_def)
  from underrun_when_start_strictly_passed [OF h1 h2, of 5 7100]
    underrun_when_start_strictly_passed [OF h1 h2, of 3 5100] h1 h2
  show ?thesis
    by (simp add: Let_def playingLead_fields bufferTime_def)
qed

section \<open>The derived prompt list\<close>

text \<open>
  C6. Whatever list a call of \<open>setSessionWeightedPrompts\<close> sends to the session, each of its
  entries comes from a track of the current track map whose weight is positive, whose trimmed
  prompt text is not empty and whose text is not in the filtered set; the entry's text is the
  track's name, a colon and a space, and the track's prompt text, and its weight is the track's
  weight. So no entry is produced for a track with weight at most 0, with blank text, or with
  filtered text.
\<close>

theorem sent_prompts_only_active_tracks:
  assumes "SetWeightedPrompts ps \<in>
             set (drop (length (outbound s))
                    (outbound (setSessionWeightedPrompts now s)))"
    and "p \<in> set ps"
  shows "\<exists>track. track \<in> snd ` set (tracks s) \<and>
      prompt_text p = name track @ utf16 '': '' @ text track \<and> prompt_weight p = weight track \<and>
      0 < weight track \<and> trim (text track) \<noteq> [] \<and> text track \<notin> filteredTrackTexts s"
proof -
  from assms(1) have "ps = promptsToSend s"
    by (auto simp: outbound_setSessionWeightedPrompts split: if_splits)
  with assms(2) show ?thesis
    using promptsToSend_sound [of p s] by blast
qed

text \<open>
  The spec's scenario: tracks "Drums" (text "kick pattern", weight 1) and "Bass" (empty text,
  weight 1); the list sent is the single entry "Drums: kick pattern".
\<close>

theorem sent_prompts_only_active_tracks_witness:
  "SetWeightedPrompts [\<lparr>prompt_text = utf16 ''Drums: kick pattern'', prompt_weight = 1\<rparr>] \<in>
     set (drop (length (outbound (connectToSession (Connected True)
                                    (newPromptDj running drumsAndBass))))
            (outbound (setSessionWeightedPrompts 1000
               (connectToSession (Connected True) (newPromptDj running drumsAndBass)))))
   \<and> \<lparr>prompt_text = utf16 ''Drums: kick pattern'', prompt_weight = 1\<rparr> \<in>
       set [\<lparr>prompt_text = utf16 ''Drums: kick pattern'', prompt_weight = 1\<rparr>]
   \<and> (\<exists>track. track \<in> snd ` set (tracks (connectToSession (Connected True)
                                      (newPromptDj running drumsAndBass))) \<and>
      prompt_text \<lparr>prompt_text = utf16 ''Drums: kick pattern'', prompt_weight = 1\<rparr>
        = name track @ utf16 '': '' @ text track \<and>
      prompt_weight \<lparr>prompt_text = utf16 ''Drums: kick pattern'', prompt_weight = 1\<rparr>
        = weight track \<and>
      0 < weight track \<and> trim (text track) \<noteq> [] \<and>
      text track \<notin> filteredTrackTexts (connectToSession (Connected True)
                                          (newPromptDj running drumsAndBass)))"
proof -
  let ?s = "connectToSession (Connected True) (newPromptDj running drumsAndBass)"
  let ?p = "\<lparr>prompt_text = utf16 ''Drums: kick pattern'', prompt_weight = 1\<rparr>"
  have ps: "promptsToSend ?s = [?p]"
    by (simp add: promptsToSend_def connectToSession_def newPromptDj_def drumsAndBass_def
        utf16_def trim_def isWhiteSpace_def)
  have h1: "SetWeightedPrompts [?p] \<in>
     set (drop (length (outbound ?s)) (outbound (setSessionWeightedPrompts 1000 ?s)))"
    by (simp add: outbound_setSessionWeightedPrompts ps)
      (simp add: connectToSession_def newPromptDj_def)
  have h2: "?p \<in> set [?p]" by simp
  from sent_prompts_only_active_tracks [OF h1 h2] h1 h2 show ?thesis by blast
qed

section \<open>Rejected sends\<close>

text \<open>
  C7. The claim: a rejected send of either kind is surfaced to the user and pauses playback.
  A rejected prompt send does both (the \<open>catch\<close> of \<open>setSessionWeightedPrompts\<close>). A rejected
  configuration send does neither: \<open>updateSettings\<close> has no \<open>catch\<close>. While \<open>playing\<close>, a
  settings change sends the configuration; when the service rejects it, no toast is shown,
  the state stays \<open>playing\<close>, and the rejection is left unhandled.
\<close>

theorem rejected_config_send_is_silent:
  "playbackState playingLead = playing \<and> session playingLead
   \<and> outbound (updateSettings 5000 (configToSend defaultSettings) playingLead) =
       outbound playingLead @ [SetMusicGenerationConfig (configToSend defaultSettings)]
   \<and> toasts (onSettled (SetMusicGenerationConfig (configToSend defaultSettings))
        (Rejected (Some (utf16 ''rejected''))) 2.9
        (updateSettings 5000 (configToSend defaultSettings) playingLead)) = []
   \<and> playbackState (onSettled (SetMusicGenerationConfig (configToSend defaultSettings))
        (Rejected (Some (utf16 ''rejected''))) 2.9
        (updateSettings 5000 (configToSend defaultSettings) playingLead)) = playing
   \<and> unhandledRejections (onSettled (SetMusicGenerationConfig (configToSend defaultSettings))
        (Rejected (Some (utf16 ''rejected''))) 2.9
        (updateSettings 5000 (configToSend defaultSettings) playingLead)) =
       [Some (utf16 ''rejected'')]
   \<and> toasts (onSettled (SetWeightedPrompts (promptsToSend playingLead))
        (Rejected (Some (utf16 ''rejected''))) 2.9
        (setSessionWeightedPrompts 5000 playingLead)) = [utf16 ''rejected'']
   \<and> playbackState (onSettled (SetWeightedPrompts (promptsToSend playingLead))
        (Rejected (Some (utf16 ''rejected''))) 2.9
        (setSessionWeightedPrompts 5000 playingLead)) = paused"
  by (simp add: updateSettings_fields rejected_prompts rejected_config playingLead_fields
      orElse_def utf16_def)

section \<open>Gapless scheduling\<close>

text \<open>
  C8. Take any stretch of playback made of inbound messages and firing timeouts only (no
  pause, stop or other user action), with the clock readings and buffer durations the
  platform can deliver, and during which no underrun is counted. The buffers scheduled in
  that stretch are contiguous: each starts exactly where the one scheduled before it ends.
\<close>

theorem uninterrupted_run_is_contiguous:
  assumes "\<forall>ev \<in> set evs. physical ev"
    and "underruns (playbackRun evs s) = underruns s"
  shows "\<forall>i. Suc i < length (drop (length (started s)) (started (playbackRun evs s))) \<longrightarrow>
           startTime (drop (length (started s)) (started (playbackRun evs s)) ! Suc i) =
             startTime (drop (length (started s)) (started (playbackRun evs s)) ! i)
             + duration (drop (length (started s)) (started (playbackRun evs s)) ! i)"
proof -
  from playbackRun_keeps_contiguous [OF assms, of "started s" "[]"]
  obtain new where "started (playbackRun evs s) = started s @ new" "contiguous new"
    by auto
  then show ?thesis
    by (simp add: contiguous_nth)
qed


text \<open>
  Three one-second chunks after play is pressed at clock 0: they are scheduled at 2, 3 and 4.
\<close>

theorem uninterrupted_run_is_contiguous_witness:
  "physical (Message 2100 0 (chunkMsg 1)) \<and> physical (Message 3100 1 (chunkMsg 1))
   \<and> physical (TimeoutFires 4100 2 0) \<and> physical (Message 4200 2.1 (chunkMsg 1))
   \<and> underruns (playbackRun threeChunks loadingLead) = underruns loadingLead
   \<and> drop (length (started loadingLead)) (started (playbackRun threeChunks loadingLead)) =
       [\<lparr>node = 0, startTime = 2, duration = 1\<rparr>, \<lparr>node = 0, startTime = 3, duration = 1\<rparr>,
        \<lparr>node = 0, startTime = 4, duration = 1\<rparr>]
   \<and> startTime (drop (length (started loadingLead))
                  (started (playbackRun threeChunks loadingLead)) ! Suc 0) =
       startTime (drop (length (started loadingLead))
                  (started (playbackRun threeChunks loadingLead)) ! 0)
       + duration (drop (length (started loadingLead))
                  (started (playbackRun threeChunks loadingLead)) ! 0)
   \<and> startTime (drop (length (started loadingLead))
                  (started (playbackRun threeChunks loadingLead)) ! Suc (Suc 0)) =
       startTime (drop (length (started loadingLead))
                  (started (playbackRun threeChunks loadingLead)) ! Suc 0)
       + duration (drop (length (started loadingLead))
                  (started (playbackRun threeChunks loadingLead)) ! Suc 0)"
proof -
  let ?new = "drop (length (started loadingLead)) (started (playbackRun threeChunks loadingLead))"
  have p: "physical (Message 2100 0 (chunkMsg 1))" "physical (Message 3100 1 (chunkMsg 1))"
    "physical (TimeoutFires 4100 2 0)" "physical (Message 4200 2.1 (chunkMsg 1))"
    by (simp_all add: chunkMsg_def)
  then have h1: "\<forall>ev \<in> set threeChunks. physical ev"
    by (simp add: threeChunks_def)
  have h2: "underruns (playbackRun threeChunks loadingLead) = underruns loadingLead"
    by (simp add: threeChunks_run loadingLead_fields)
  note c = uninterrupted_run_is_contiguous [OF h1 h2, rule_format]
  have "startTime (?new ! Suc 0) = startTime (?new ! 0) + duration (?new ! 0)"
    by (rule c) (simp add: threeChunks_run loadingLead_fields)
  moreover have "startTime (?new ! Suc (Suc 0)) = startTime (?new ! Suc 0) + duration (?new ! Suc 0)"
    by (rule c) (simp add: threeChunks_run loadingLead_fields)
  moreover have "?new = [\<lparr>node = 0, startTime = 2, duration = 1\<rparr>,
      \<lparr>node = 0, startTime = 3, duration = 1\<rparr>, \<lparr>node = 0, startTime = 4, duration = 1\<rparr>]"
    by (simp add: threeChunks_run loadingLead_fields)
  ultimately show ?thesis using p h2 by blast
qed

section \<open>Track edits and the filtered texts\<close>

text \<open>
  C9. An edit of an existing track whose old prompt text is in the filtered set, to a text that
  differs from the old one, removes the old text from the set. No edit adds anything to the
  set: the new text is in the set afterwards only if it was there before.
\<close>

theorem edit_reconciles_filtered_set:
  "(map_of (tracks s) (trackId changedTrack) = Some track \<longrightarrow>
      text track \<in> filteredTrackTexts s \<longrightarrow> text changedTrack \<noteq> text track \<longrightarrow>
      text track \<notin> filteredTrackTexts (handleTrackChanged now changedTrack s))
   \<and> (text changedTrack \<in> filteredTrackTexts (handleTrackChanged now changedTrack s)
        \<longrightarrow> text changedTrack \<in> filteredTrackTexts s)
   \<and> filteredTrackTexts (handleTrackChanged now changedTrack s)
        \<subseteq> filteredTrackTexts s"
  by (auto simp: filtered_handleTrackChanged split: option.splits if_splits)

text \<open>
  The spec's scenario: the service filtered "X", the text of the first track; editing that
  track's text to "Y" removes "X" from the set and does not put "Y" in.
\<close>

theorem edit_reconciles_filtered_set_witness:
  "map_of (tracks filteredX) (utf16 ''track-0'') =
     Some \<lparr>trackId = utf16 ''track-0'', name = utf16 ''Lead'', color = utf16 ''#FF6B6B'',
           text = utf16 ''X'', weight = 1\<rparr>
   \<and> utf16 ''X'' \<in> filteredTrackTexts filteredX \<and> utf16 ''Y'' \<noteq> utf16 ''X''
   \<and> utf16 ''X'' \<notin> filteredTrackTexts (handleTrackChanged 5000
        \<lparr>trackId = utf16 ''track-0'', name = utf16 ''Lead'', color = utf16 ''#FF6B6B'',
         text = utf16 ''Y'', weight = 1\<rparr> filteredX)
   \<and> utf16 ''Y'' \<notin> filteredTrackTexts (handleTrackChanged 5000
        \<lparr>trackId = utf16 ''track-0'', name = utf16 ''Lead'', color = utf16 ''#FF6B6B'',
         text = utf16 ''Y'', weight = 1\<rparr> filteredX)"
proof -
  let ?old = "\<lparr>trackId = utf16 ''track-0'', name = utf16 ''Lead'', color = utf16 ''#FF6B6B'',
           text = utf16 ''X'', weight = 1\<rparr>"
  let ?new = "\<lparr>trackId = utf16 ''track-0'', name = utf16 ''Lead'', color = utf16 ''#FF6B6B'',
         text = utf16 ''Y'', weight = 1\<rparr>"
  have h1: "map_of (tracks filteredX) (trackId ?new) = Some ?old"
    by (simp add: filteredX_fields leadAndPad_def)
  have h2: "text ?old \<in> filteredTrackTexts filteredX"
    by (simp add: filteredX_fields)
  have h3: "text ?new \<noteq> text ?old"
    by (simp add: utf16_def)
  have h4: "text ?new \<notin> filteredTrackTexts filteredX"
    by (simp add: filteredX_fields) (simp add: utf16_def)
  from edit_reconciles_filtered_set [of filteredX ?new ?old 5000] h1 h2 h3 h4
  show ?thesis by simp
qed

text \<open>
  C10. Removing a track whose prompt text is in the filtered set deletes that text from the
  set. When another track is then edited to that same text (with a positive weight, the text
  not blank), its prompt is in the list derived for the session: the text is no longer
  suppressed.
\<close>

theorem removal_unfilters_text:
  assumes "map_of (tracks s) k = Some track"
    and "text track \<in> filteredTrackTexts s"
    and "map_of (tracks (handleTrackRemoved now k s)) (trackId changedTrack) = Some other"
    and "text changedTrack = text track"
    and "0 < weight changedTrack"
    and "trim (text changedTrack) \<noteq> []"
  shows "text track \<notin> filteredTrackTexts (handleTrackRemoved now k s)
    \<and> \<lparr>prompt_text = name changedTrack @ utf16 '': '' @ text track,
        prompt_weight = weight changedTrack\<rparr>
      \<in> set (promptsToSend (handleTrackChanged now' changedTrack
                (handleTrackRemoved now k s)))"
proof -
  let ?r = "handleTrackRemoved now k s"
  let ?e = "handleTrackChanged now' changedTrack ?r"
  let ?v = "other\<lparr>name := name changedTrack, text := text changedTrack,
                   weight := weight changedTrack\<rparr>"
  have gone: "text track \<notin> filteredTrackTexts ?r"
    using assms(1) by (simp add: filtered_handleTrackRemoved)
  have "filteredTrackTexts ?e \<subseteq> filteredTrackTexts ?r"
    by (auto simp: filtered_handleTrackChanged split: option.splits if_splits)
  with gone have nf: "text ?v \<notin> filteredTrackTexts ?e"
    using assms(4) by auto
  have "(trackId changedTrack, ?v) \<in> set (tracks ?e)"
    using assms(3) by (simp add: tracks_handleTrackChanged mapSet_mem)
  then have "?v \<in> snd ` set (tracks ?e)"
    by force
  from promptsToSend_complete [OF this nf] assms(5,6) have
    "\<lparr>prompt_text = name ?v @ utf16 '': '' @ text ?v, prompt_weight = weight ?v\<rparr>
       \<in> set (promptsToSend ?e)"
    by simp
  with gone assms(4) show ?thesis by simp
qed


text \<open>
  The first track's text "X" is filtered; the track is removed, and the second track is then
  edited to "X": the derived list holds "Pad: X".
\<close>

theorem removal_unfilters_text_witness:
  "map_of (tracks filteredX) (utf16 ''track-0'') =
     Some \<lparr>trackId = utf16 ''track-0'', name = utf16 ''Lead'', color = utf16 ''#FF6B6B'',
           text = utf16 ''X'', weight = 1\<rparr>
   \<and> utf16 ''X'' \<in> filteredTrackTexts filteredX
   \<and> map_of (tracks (handleTrackRemoved 5000 (utf16 ''track-0'') filteredX))
        (utf16 ''track-1'') =
     Some \<lparr>trackId = utf16 ''track-1'', name = utf16 ''Pad'', color = utf16 ''#FFD166'',
           text = utf16 ''warm pad'', weight = 0.5\<rparr>
   \<and> (0::real) < 0.5 \<and> trim (utf16 ''X'') \<noteq> []
   \<and> utf16 ''X'' \<notin> filteredTrackTexts (handleTrackRemoved 5000 (utf16 ''track-0'') filteredX)
   \<and> \<lparr>prompt_text = utf16 ''Pad: X'', prompt_weight = 0.5\<rparr>
      \<in> set (promptsToSend (handleTrackChanged 6000
                \<lparr>trackId = utf16 ''track-1'', name = utf16 ''Pad'', color = utf16 ''#FFD166'',
                 text = utf16 ''X'', weight = 0.5\<rparr>
                (handleTrackRemoved 5000 (utf16 ''track-0'') filteredX)))"
proof -
  let ?lead = "\<lparr>trackId = utf16 ''track-0'', name = utf16 ''Lead'', color = utf16 ''#FF6B6B'',
           text = utf16 ''X'', weight = 1\<rparr>"
  let ?pad = "\<lparr>trackId = utf16 ''track-1'', name = utf16 ''Pad'', color = utf16 ''#FFD166'',
           text = utf16 ''warm pad'', weight = 0.5\<rparr>"
  let ?edit = "\<lparr>trackId = utf16 ''track-1'', name = utf16 ''Pad'', color = utf16 ''#FFD166'',
                 text = utf16 ''X'', weight = 0.5\<rparr>"
  let ?r = "handleTrackRemoved 5000 (utf16 ''track-0'') filteredX"
  have h1: "map_of (tracks filteredX) (utf16 ''track-0'') = Some ?lead"
    by (simp add: filteredX_fields leadAndPad_def)
  have h2: "text ?lead \<in> filteredTrackTexts filteredX"
    by (simp add: filteredX_fields)
  have tr: "tracks ?r = [(utf16 ''track-1'', ?pad)]"
    using h1 by (simp add: handleTrackRemoved_def Let_def filteredX_fields)
      (simp add: leadAndPad_def mapDelete_def utf16_def)
  have h3: "map_of (tracks ?r) (trackId ?edit) = Some ?pad"
    by (simp add: tr)
  have h4: "text ?edit = text ?lead" by simp
  have h5: "0 < weight ?edit" by simp
  have h6: "trim (text ?edit) \<noteq> []"
    by (simp add: trim_def utf16_def isWhiteSpace_def)
  from removal_unfilters_text [OF h1 h2 h3 h4 h5 h6, of 6000] h1 h2 h3 h6
  show ?thesis by (simp add: utf16_def)
qed

end
